theory Spec2Isabelle
  imports Main
begin

text \<open>
  A model of \<open>ResumeAnalyzer\<close> of \<open>RESUME_EXTRACTOR/main.py\<close>: the functions
  \<open>clean_text\<close>, \<open>calculate_experience_level\<close>, \<open>analyze_personality\<close> and \<open>parse\<close>,
  over models of the operations of \<open>str\<close> and \<open>re\<close> they call. Three things come from
  outside the program and are parameters: what \<open>extract_text\<close> read from the file, the
  spaCy model \<open>self.nlp\<close>, and the current year \<open>datetime.now().year\<close>.
\<close>

section \<open>Python strings\<close>

text \<open>
  A Python \<open>str\<close> is modelled as a \<open>string\<close> (a list of 8-bit \<open>char\<close>), each \<open>char\<close>
  read as the Unicode code point of the same number, so the model covers the texts whose
  code points are below 256. The character classes below are the ones CPython uses for
  these code points.
\<close>

definition nl :: char where
  "nl = CHR 0x0A"

definition isspace :: "char \<Rightarrow> bool" where
  \<comment> \<open>\<open>str.isspace\<close>, also the separator class of \<open>str.split()\<close> and \<open>str.strip()\<close>,
      and \<open>\s\<close> of \<open>re\<close>: U+0009..U+000D, U+001C..U+0020, U+0085, U+00A0.\<close>
  "isspace c = (let n = (of_char c :: nat) in
     (9 \<le> n \<and> n \<le> 13) \<or> (28 \<le> n \<and> n \<le> 32) \<or> n = 133 \<or> n = 160)"

definition isdigit :: "char \<Rightarrow> bool" where
  \<comment> \<open>\<open>\d\<close> of \<open>re\<close> on a str pattern: the decimal digits, below 256 only \<open>0..9\<close>.\<close>
  "isdigit c = (let n = (of_char c :: nat) in 48 \<le> n \<and> n \<le> 57)"

definition isupper_ascii :: "char \<Rightarrow> bool" where
  "isupper_ascii c = (let n = (of_char c :: nat) in 65 \<le> n \<and> n \<le> 90)"

definition islower_ascii :: "char \<Rightarrow> bool" where
  "islower_ascii c = (let n = (of_char c :: nat) in 97 \<le> n \<and> n \<le> 122)"

definition isword :: "char \<Rightarrow> bool" where
  \<comment> \<open>\<open>\w\<close> of \<open>re\<close> on a str pattern: alphanumeric (alphabetic, decimal, digit or
      numeric) or underscore.\<close>
  "isword c = (let n = (of_char c :: nat) in
     isdigit c \<or> isupper_ascii c \<or> islower_ascii c \<or> n = 95 \<or>
     n = 170 \<or> n = 178 \<or> n = 179 \<or> n = 181 \<or> n = 185 \<or> n = 186 \<or>
     (188 \<le> n \<and> n \<le> 190) \<or> (192 \<le> n \<and> n \<le> 214) \<or>
     (216 \<le> n \<and> n \<le> 246) \<or> (248 \<le> n \<and> n \<le> 255))"

definition lower_char :: "char \<Rightarrow> char" where
  "lower_char c = (let n = (of_char c :: nat) in
     if (65 \<le> n \<and> n \<le> 90) \<or> (192 \<le> n \<and> n \<le> 222 \<and> n \<noteq> 215)
     then char_of (n + 32) else c)"

definition lower :: "string \<Rightarrow> string" where
  \<comment> \<open>\<open>str.lower()\<close>\<close>
  "lower s = map lower_char s"

definition strip :: "string \<Rightarrow> string" where
  \<comment> \<open>\<open>str.strip()\<close>\<close>
  "strip s = rev (dropWhile isspace (rev (dropWhile isspace s)))"

fun split_on :: "char \<Rightarrow> string \<Rightarrow> string list" where
  \<comment> \<open>\<open>str.split(sep)\<close> for a one-character separator: empty pieces are kept.\<close>
  "split_on sep [] = [[]]"
| "split_on sep (c # cs) =
     (if c = sep then [] # split_on sep cs
      else (case split_on sep cs of
              [] \<Rightarrow> [[c]]
            | l # ls \<Rightarrow> (c # l) # ls))"

fun split_ws_acc :: "string \<Rightarrow> string \<Rightarrow> string list" where
  "split_ws_acc w [] = (if w = [] then [] else [rev w])"
| "split_ws_acc w (c # cs) =
     (if isspace c then (if w = [] then split_ws_acc [] cs else rev w # split_ws_acc [] cs)
      else split_ws_acc (c # w) cs)"

definition split_ws :: "string \<Rightarrow> string list" where
  \<comment> \<open>\<open>str.split()\<close>: the maximal runs of non-whitespace characters.\<close>
  "split_ws s = split_ws_acc [] s"

fun is_prefix :: "string \<Rightarrow> string \<Rightarrow> bool" where
  "is_prefix [] s = True"
| "is_prefix (k # ks) [] = False"
| "is_prefix (k # ks) (c # cs) = (k = c \<and> is_prefix ks cs)"

fun str_in :: "string \<Rightarrow> string \<Rightarrow> bool" where
  \<comment> \<open>\<open>k in s\<close> on strings: \<open>k\<close> occurs in \<open>s\<close> as a substring.\<close>
  "str_in k [] = (k = [])"
| "str_in k (c # cs) = (is_prefix k (c # cs) \<or> str_in k cs)"

fun count_from :: "string \<Rightarrow> nat \<Rightarrow> string \<Rightarrow> int" where
  "count_from k skip [] = (if k = [] then 1 else 0)"
| "count_from k skip (c # cs) =
     (if 0 < skip then count_from k (skip - 1) cs
      else if is_prefix k (c # cs) then 1 + count_from k (length k - 1) cs
      else count_from k 0 cs)"

definition str_count :: "string \<Rightarrow> string \<Rightarrow> int" where
  \<comment> \<open>\<open>s.count(k)\<close>: the non-overlapping occurrences of \<open>k\<close> in \<open>s\<close>, from the left.\<close>
  "str_count s k = count_from k 0 s"

fun digits :: "nat \<Rightarrow> string" where
  "digits n = (if n < 10 then [char_of (48 + n)] else digits (n div 10) @ [char_of (48 + n mod 10)])"

declare digits.simps [simp del]

definition py_str :: "int \<Rightarrow> string" where
  \<comment> \<open>\<open>str(n)\<close>, the decimal form an f-string gives an int.\<close>
  "py_str n = (if n < 0 then CHR ''-'' # digits (nat (- n)) else digits (nat n))"

definition py_int :: "string \<Rightarrow> int" where
  \<comment> \<open>\<open>int(y)\<close> for a \<open>y\<close> of ASCII decimal digits, the only strings the program passes
      to it (the captures of the year pattern's group).\<close>
  "py_int y = foldl (\<lambda>a c. 10 * a + (int (of_char c) - 48)) 0 y"

section \<open>Regular expressions\<close>

text \<open>
  The part of Python's \<open>re\<close> that the three patterns of the program use, with its
  backtracking order: \<open>rmatch\<close> lists the ways a pattern matches at a position, most
  preferred first, and \<open>re\<close> takes the first. A position is the character before it (for
  \<open>\b\<close>), the text from it, and what group 1 has captured so far.
\<close>

datatype regex =
    Eps
  | Cls "char \<Rightarrow> bool"
  | WordB
  | Seq regex regex
  | Alt regex regex
  | Opt regex
  | Rep "char \<Rightarrow> bool" nat "nat option"
  | Group regex

type_synonym mstate = "char option \<times> string \<times> string option"

definition at_boundary :: "char option \<Rightarrow> string \<Rightarrow> bool" where
  \<comment> \<open>\<open>\b\<close>: exactly one of the characters around the position is a word character.\<close>
  "at_boundary p rest =
     ((case p of None \<Rightarrow> False | Some c \<Rightarrow> isword c) \<noteq>
      (case rest of [] \<Rightarrow> False | c # _ \<Rightarrow> isword c))"

definition advance :: "mstate \<Rightarrow> nat \<Rightarrow> mstate" where
  "advance st n = (case st of (p, rest, g) \<Rightarrow>
     (if n = 0 then p else Some (rest ! (n - 1)), drop n rest, g))"

definition run_length :: "(char \<Rightarrow> bool) \<Rightarrow> nat option \<Rightarrow> string \<Rightarrow> nat" where
  "run_length P hi rest = (let k = length (takeWhile P rest) in
     case hi of None \<Rightarrow> k | Some h \<Rightarrow> min h k)"

fun rmatch :: "regex \<Rightarrow> mstate \<Rightarrow> mstate list" where
  "rmatch Eps st = [st]"
| "rmatch (Cls P) st = (case st of (p, rest, g) \<Rightarrow>
     (case rest of [] \<Rightarrow> [] | c # cs \<Rightarrow> if P c then [(Some c, cs, g)] else []))"
| "rmatch WordB st = (case st of (p, rest, g) \<Rightarrow> if at_boundary p rest then [st] else [])"
| "rmatch (Seq a b) st = concat (map (rmatch b) (rmatch a st))"
| "rmatch (Alt a b) st = rmatch a st @ rmatch b st"
| "rmatch (Opt a) st = rmatch a st @ [st]"
| "rmatch (Rep P lo hi) st = (case st of (p, rest, g) \<Rightarrow>
     map (advance st) (rev [lo ..< Suc (run_length P hi rest)]))"
| "rmatch (Group a) st = (case st of (p, rest, g) \<Rightarrow>
     map (\<lambda>(p', rest', g'). (p', rest', Some (take (length rest - length rest') rest)))
       (rmatch a st))"

definition match_here :: "regex \<Rightarrow> char option \<Rightarrow> string \<Rightarrow> (string \<times> string option) option" where
  \<comment> \<open>The match starting at this position, if any: its text (group 0) and group 1.\<close>
  "match_here r p rest =
     (case rmatch r (p, rest, None) of
        [] \<Rightarrow> None
      | (p', rest', g) # _ \<Rightarrow> Some (take (length rest - length rest') rest, g))"

fun search_from :: "regex \<Rightarrow> char option \<Rightarrow> string \<Rightarrow> string option" where
  "search_from r p [] = map_option fst (match_here r p [])"
| "search_from r p (c # cs) =
     (case match_here r p (c # cs) of
        Some m \<Rightarrow> Some (fst m)
      | None \<Rightarrow> search_from r (Some c) cs)"

definition re_search :: "regex \<Rightarrow> string \<Rightarrow> string option" where
  \<comment> \<open>\<open>re.search(r, s)\<close>, then \<open>.group(0)\<close> of the match: the leftmost match.\<close>
  "re_search r s = search_from r None s"

fun findall_from :: "regex \<Rightarrow> char option \<Rightarrow> nat \<Rightarrow> string \<Rightarrow> string list" where
  "findall_from r p skip [] =
     (if 0 < skip then []
      else (case match_here r p [] of
              None \<Rightarrow> []
            | Some m \<Rightarrow> [case snd m of None \<Rightarrow> [] | Some g \<Rightarrow> g]))"
| "findall_from r p skip (c # cs) =
     (if 0 < skip then findall_from r (Some c) (skip - 1) cs
      else (case match_here r p (c # cs) of
              None \<Rightarrow> findall_from r (Some c) 0 cs
            | Some m \<Rightarrow> (case snd m of None \<Rightarrow> [] | Some g \<Rightarrow> g) #
                findall_from r (Some c) (length (fst m) - 1) cs))"

definition re_findall :: "regex \<Rightarrow> string \<Rightarrow> string list" where
  \<comment> \<open>\<open>re.findall(r, s)\<close> for a pattern with exactly one group: the non-overlapping
      matches from the left, and of each match the text of group 1, not of the match.\<close>
  "re_findall r s = findall_from r None 0 s"

fun sub_from :: "regex \<Rightarrow> string \<Rightarrow> char option \<Rightarrow> nat \<Rightarrow> string \<Rightarrow> string" where
  "sub_from r repl p skip [] =
     (if 0 < skip then []
      else (case match_here r p [] of None \<Rightarrow> [] | Some m \<Rightarrow> repl))"
| "sub_from r repl p skip (c # cs) =
     (if 0 < skip then sub_from r repl (Some c) (skip - 1) cs
      else (case match_here r p (c # cs) of
              None \<Rightarrow> c # sub_from r repl (Some c) 0 cs
            | Some m \<Rightarrow>
                if fst m = [] then repl @ c # sub_from r repl (Some c) 0 cs
                else repl @ sub_from r repl (Some c) (length (fst m) - 1) cs))"

definition re_sub :: "regex \<Rightarrow> string \<Rightarrow> string \<Rightarrow> string" where
  \<comment> \<open>\<open>re.sub(r, repl, s)\<close> for a replacement without group references.\<close>
  "re_sub r repl s = sub_from r repl None 0 s"

section \<open>The resume analyzer\<close>

subsection \<open>Patterns and keyword tables of \<open>ResumeAnalyzer.__init__\<close>\<close>

fun lit :: "string \<Rightarrow> regex" where
  "lit [] = Eps"
| "lit (c # cs) = Seq (Cls (\<lambda>x. x = c)) (lit cs)"

definition email_pattern :: regex where
  \<comment> \<open>\<^verbatim>\<open>\b[A-Za-z0-9._%+-]+@[A-Za-z0-9.-]+\.[A-Z|a-z]{2,}\b\<close>\<close>
  "email_pattern =
     Seq WordB
    (Seq (Rep (\<lambda>c. isupper_ascii c \<or> islower_ascii c \<or> isdigit c \<or> c \<in> set ''._%+-'') 1 None)
    (Seq (Cls (\<lambda>c. c = CHR ''@''))
    (Seq (Rep (\<lambda>c. isupper_ascii c \<or> islower_ascii c \<or> isdigit c \<or> c \<in> set ''.-'') 1 None)
    (Seq (Cls (\<lambda>c. c = CHR ''.''))
    (Seq (Rep (\<lambda>c. isupper_ascii c \<or> c = CHR ''|'' \<or> islower_ascii c) 2 None)
     WordB)))))"

definition phone_sep :: "char \<Rightarrow> bool" where
  \<comment> \<open>\<^verbatim>\<open>[-.\s]\<close>\<close>
  "phone_sep c = (c = CHR ''-'' \<or> c = CHR ''.'' \<or> isspace c)"

definition phone_pattern :: regex where
  \<comment> \<open>\<^verbatim>\<open>(\+?\d{1,3}[-.\s]?)?\(?\d{3}\)?[-.\s]?\d{3}[-.\s]?\d{4}\<close>\<close>
  "phone_pattern =
     Seq (Opt (Group (Seq (Opt (Cls (\<lambda>c. c = CHR ''+'')))
                     (Seq (Rep isdigit 1 (Some 3)) (Opt (Cls phone_sep))))))
    (Seq (Opt (Cls (\<lambda>c. c = CHR ''('')))
    (Seq (Rep isdigit 3 (Some 3))
    (Seq (Opt (Cls (\<lambda>c. c = CHR '')'')))
    (Seq (Opt (Cls phone_sep))
    (Seq (Rep isdigit 3 (Some 3))
    (Seq (Opt (Cls phone_sep))
         (Rep isdigit 4 (Some 4))))))))"

definition year_pattern :: regex where
  \<comment> \<open>\<^verbatim>\<open>\b(19|20)\d{2}\b\<close>\<close>
  "year_pattern =
     Seq WordB
    (Seq (Group (Alt (lit ''19'') (lit ''20'')))
    (Seq (Rep isdigit 2 (Some 2))
         WordB))"

definition sections_keywords :: "(string \<times> string list) list" where
  \<comment> \<open>A dict, in its insertion order, which is the order \<open>.items()\<close> iterates in.\<close>
  "sections_keywords =
    [(''education'', [''education'', ''academic'', ''qualifications'', ''university'', ''college'']),
     (''skills'', [''skills'', ''technologies'', ''technical skills'', ''competencies'', ''stack'']),
     (''experience'', [''experience'', ''work history'', ''employment'', ''internships'', ''career'',
                      ''professional experience'']),
     (''achievements'', [''achievements'', ''certifications'', ''awards'', ''honors'', ''licenses'']),
     (''projects'', [''projects'', ''portfolio''])]"

definition personality_keywords :: "(string \<times> string list) list" where
  "personality_keywords =
    [(''Leadership'', [''led'', ''managed'', ''spearheaded'', ''oversaw'', ''directed'', ''supervised'',
                      ''guided'', ''mentored'', ''chief'', ''head'']),
     (''Teamwork'', [''collaborated'', ''team'', ''partnered'', ''assisted'', ''supported'', ''cooperated'',
                    ''joint'', ''group'', ''member'']),
     (''Communication'', [''presented'', ''negotiated'', ''authored'', ''wrote'', ''corresponded'', ''spoke'',
                         ''briefed'', ''explained'', ''facilitated'']),
     (''Problem Solving'', [''solved'', ''resolved'', ''debugged'', ''fixed'', ''troubleshot'', ''analyzed'',
                           ''diagnosed'', ''improved'', ''optimized'']),
     (''Creativity'', [''designed'', ''created'', ''innovated'', ''architected'', ''developed'',
                      ''conceptualized'', ''drafted'', ''originated'']),
     (''Adaptability'', [''adapted'', ''adjusted'', ''flexible'', ''versatile'', ''changed'', ''learned'',
                        ''migrated'', ''transitioned''])]"

subsection \<open>\<open>clean_text\<close>\<close>

definition newlines :: regex where
  \<comment> \<open>\<^verbatim>\<open>\n+\<close>\<close>
  "newlines = Rep (\<lambda>c. c = nl) 1 None"

definition clean_text :: "string \<Rightarrow> string" where
  "clean_text text = (if text = [] then [] else strip (re_sub newlines [nl] text))"

subsection \<open>\<open>calculate_experience_level\<close>\<close>

definition detected_years :: "int \<Rightarrow> string \<Rightarrow> int list" where
  \<comment> \<open>The two assignments to \<open>years\<close>; \<open>now\<close> is \<open>datetime.now().year\<close>.\<close>
  "detected_years now experience_section_text =
     (let years = map py_int (re_findall year_pattern experience_section_text)
      in sort (filter (\<lambda>y. 1980 \<le> y \<and> y \<le> now) years))"

definition estimated_years_of :: "int list \<Rightarrow> int" where
  "estimated_years_of years = (if years \<noteq> [] then last years - hd years else 0)"

definition title_bump_of :: "string \<Rightarrow> bool" where
  "title_bump_of text_lower =
     (str_in ''senior'' text_lower \<or> str_in ''manager'' text_lower \<or>
      str_in ''lead'' text_lower \<or> str_in ''architect'' text_lower)"

definition year_or_unknown :: "(int \<Rightarrow> int \<Rightarrow> int) \<Rightarrow> int list \<Rightarrow> string" where
  \<comment> \<open>\<open>min(years) if years else '?'\<close>, and the same with \<open>max\<close>\<close>
  "year_or_unknown pick years = (case years of [] \<Rightarrow> ''?'' | y # ys \<Rightarrow> py_str (fold pick ys y))"

definition level_rules :: "int \<Rightarrow> bool \<Rightarrow> string \<Rightarrow> int list \<Rightarrow> string \<times> string" where
  \<comment> \<open>Step 3 of the function (``Logic''), from the values the first two steps computed.\<close>
  "level_rules estimated_years title_bump text_lower years =
     (if estimated_years \<le> 1 \<and>
         list_ex (\<lambda>k. str_in k text_lower) [''fresher'', ''graduate'', ''entry level'']
      then (''Fresher / Entry-Level'', ''0-1 Years (inferred)'')
      else if estimated_years = 0 \<and> \<not> title_bump
      then (''Entry-Level (Uncertain)'', ''No dates found'')
      else
        (let level = (if estimated_years < 3 then ''Junior''
                      else if 3 \<le> estimated_years \<and> estimated_years < 7 then ''Mid-Level''
                      else ''Senior'');
             level = (if title_bump \<and> level = ''Junior'' \<and> estimated_years > 1
                      then ''Junior-Mid'' else level);
             level = (if title_bump \<and> level = ''Mid-Level'' then ''Mid-Senior'' else level)
         in (level,
             py_str estimated_years @ '' Years detected ('' @ year_or_unknown min years @
             '' - '' @ year_or_unknown max years @ '')'')))"

definition calculate_experience_level :: "int \<Rightarrow> string \<Rightarrow> string \<Rightarrow> string \<times> string" where
  "calculate_experience_level now text experience_section_text =
     (let years = detected_years now experience_section_text;
          estimated_years = estimated_years_of years;
          text_lower = lower text;
          title_bump = title_bump_of text_lower
      in level_rules estimated_years title_bump text_lower years)"

subsection \<open>\<open>analyze_personality\<close>\<close>

text \<open>
  The spaCy model is outside the program: \<open>self.nlp\<close> is \<open>None\<close> when loading it failed,
  and otherwise a function from a text to its tokens, of which the program reads three
  attributes.
\<close>

record token =
  tok_lemma :: string  \<comment> \<open>\<open>token.lemma_\<close>\<close>
  is_stop :: bool
  is_punct :: bool

type_synonym nlp = "(string \<Rightarrow> token list) option"

definition rating_of :: "int \<Rightarrow> string" where
  "rating_of score =
     (if score \<ge> 10 then ''High''
      else if score \<ge> 4 then ''Medium''
      else if score > 0 then ''Low''
      else ''Not Detected'')"

definition trait_score :: "string list \<Rightarrow> string \<Rightarrow> string list \<Rightarrow> int" where
  \<comment> \<open>The inner loop: \<open>counts[k]\<close> of the \<open>Counter\<close> of the tokens, plus
      \<open>text.lower().count(k)\<close>, over the keywords of the trait.\<close>
  "trait_score tokens text keywords =
     fold (\<lambda>k score. score + int (count_list tokens k) + str_count (lower text) k) keywords 0"

definition analyze_personality :: "nlp \<Rightarrow> string \<Rightarrow> (string \<times> string \<times> int) list" where
  "analyze_personality nlp text =
     (case nlp of
        None \<Rightarrow> map (\<lambda>(k, keywords). (k, ''N/A'', 0)) personality_keywords
      | Some run \<Rightarrow>
          (let doc = run (lower text);
               tokens = map tok_lemma (filter (\<lambda>t. \<not> is_stop t \<and> \<not> is_punct t) doc)
           in map (\<lambda>(trait, keywords).
                     (let score = trait_score tokens text keywords
                      in (trait, rating_of score, score)))
                  personality_keywords))"

subsection \<open>\<open>parse\<close>\<close>

text \<open>
  The result of \<open>parse\<close> is a Python dict, modelled as an association list in insertion
  order over the values the program stores. Assigning to a key that is present replaces
  its value in place, assigning to a new key appends it, and reading a key that is absent
  raises \<open>KeyError\<close>.
\<close>

datatype pyval =
    Str string
  | StrList "string list"
  | Tuple string int
  | Dict "(string \<times> pyval) list"

datatype py_error = KeyError string

fun dict_set :: "string \<Rightarrow> 'v \<Rightarrow> (string \<times> 'v) list \<Rightarrow> (string \<times> 'v) list" where
  "dict_set k v [] = [(k, v)]"
| "dict_set k v ((k', v') # d) = (if k' = k then (k, v) # d else (k', v') # dict_set k v d)"

record seg_state =
  current_section :: "string option"
  section_text :: "(string \<times> string list) list"
  full_experience_text :: string

definition seg_init :: seg_state where
  "seg_init = \<lparr>current_section = None,
               section_text = map (\<lambda>(k, keywords). (k, [])) sections_keywords,
               full_experience_text = []\<rparr>"

definition is_header_for :: "string \<Rightarrow> string list \<Rightarrow> bool" where
  "is_header_for clean_line keywords =
     (list_ex (\<lambda>k. str_in k clean_line) keywords \<and> length (split_ws clean_line) < 5)"

definition header_section :: "string \<Rightarrow> string option" where
  \<comment> \<open>The inner loop over \<open>sections_keywords.items()\<close>, left at the first section found.\<close>
  "header_section clean_line =
     map_option fst (find (\<lambda>(section, keywords). is_header_for clean_line keywords) sections_keywords)"

definition seg_step :: "seg_state \<Rightarrow> string \<Rightarrow> seg_state" where
  \<comment> \<open>One round of the loop over \<open>lines\<close>.\<close>
  "seg_step st line =
     (let clean_line = lower (strip line) in
      case header_section clean_line of
        Some section \<Rightarrow> st\<lparr>current_section := Some section\<rparr>
      | None \<Rightarrow>
          (case current_section st of
             None \<Rightarrow> st
           | Some cur \<Rightarrow>
               (case map_of (section_text st) cur of
                  None \<Rightarrow> st
                | Some content \<Rightarrow>
                    if strip line \<noteq> [] then
                      st\<lparr>section_text := dict_set cur (content @ [strip line]) (section_text st),
                         full_experience_text :=
                           (if cur = ''experience'' then full_experience_text st @ line @ '' ''
                            else full_experience_text st)\<rparr>
                    else st)))"

definition segment :: "string list \<Rightarrow> seg_state" where
  "segment lines = foldl seg_step seg_init lines"

definition name_candidate :: "string \<Rightarrow> bool" where
  "name_candidate line =
     (let line_stripped = strip line
      in length line_stripped > 2 \<and> \<not> str_in ''resume'' (lower line_stripped) \<and>
         \<not> str_in ''@'' line_stripped)"

definition error_result :: "(string \<times> pyval) list" where
  "error_result = [(''Error'', Str ''Could not extract text.'')]"

definition initial_data :: "(string \<times> pyval) list" where
  "initial_data =
     [(''Full Name'', Str ''Not Found''),
      (''Email'', Str ''Not Found''),
      (''Phone'', Str ''Not Found''),
      (''Skills'', StrList []),
      (''Education'', StrList []),
      (''Experience'', StrList []),
      (''Achievements'', StrList []),
      (''AI_Analysis'', Dict [])]"

definition contact_data :: "string \<Rightarrow> string list \<Rightarrow> (string \<times> pyval) list" where
  \<comment> \<open>``Basic Extraction'': \<open>data\<close> after the email, the phone and the name are looked for.\<close>
  "contact_data clean_raw_text lines =
     (let data = initial_data;
          data = (case re_search email_pattern clean_raw_text of
                    None \<Rightarrow> data | Some m \<Rightarrow> dict_set ''Email'' (Str m) data);
          data = (case re_search phone_pattern clean_raw_text of
                    None \<Rightarrow> data | Some m \<Rightarrow> dict_set ''Phone'' (Str m) data);
          data = (case find name_candidate (take 5 lines) of
                    None \<Rightarrow> data | Some line \<Rightarrow> dict_set ''Full Name'' (Str (strip line)) data)
      in data)"

definition ai_analysis :: "nlp \<Rightarrow> int \<Rightarrow> string \<Rightarrow> string \<Rightarrow> pyval" where
  \<comment> \<open>``AI / NLP Analysis'': the dict stored under \<open>AI_Analysis\<close>.\<close>
  "ai_analysis nlp now clean_raw_text experience_text =
     (case calculate_experience_level now clean_raw_text experience_text of
        (exp_level, exp_details) \<Rightarrow>
          (let personality_traits = analyze_personality nlp clean_raw_text
           in Dict [(''Experience_Level'', Str exp_level),
                    (''Experience_Detail'', Str exp_details),
                    (''Personality'',
                       Dict (map (\<lambda>(trait, rating, score). (trait, Tuple rating score))
                                 personality_traits))]))"

definition parse :: "nlp \<Rightarrow> int \<Rightarrow> string option \<Rightarrow> py_error + (string \<times> pyval) list" where
  \<comment> \<open>\<open>extracted\<close> is what \<open>self.extract_text(filepath)\<close> returned: \<open>None\<close>, or the text
      the file readers delivered.\<close>
  "parse nlp now extracted =
     (case extracted of
        None \<Rightarrow> Inr error_result
      | Some raw_text \<Rightarrow>
          if raw_text = [] then Inr error_result
          else
            (let clean_raw_text = clean_text raw_text;
                 lines = split_on nl clean_raw_text;
                 data = contact_data clean_raw_text lines;
                 st = segment lines
             in case map_of (section_text st) ''education'' of
                  None \<Rightarrow> Inl (KeyError ''education'')
                | Some education \<Rightarrow>
               (case map_of (section_text st) ''skills'' of
                  None \<Rightarrow> Inl (KeyError ''skills'')
                | Some skills \<Rightarrow>
               (case map_of (section_text st) ''experience'' of
                  None \<Rightarrow> Inl (KeyError ''experience'')
                | Some experience \<Rightarrow>
               (case map_of (section_text st) ''achievements'' of
                  None \<Rightarrow> Inl (KeyError ''achievements'')
                | Some achievements \<Rightarrow>
                    (let data = dict_set ''Education'' (StrList education) data;
                         data = dict_set ''Skills'' (StrList skills) data;
                         data = dict_set ''Experience'' (StrList experience) data;
                         data = dict_set ''Achievements'' (StrList achievements) data;
                         data = dict_set ''AI_Analysis''
                                  (ai_analysis nlp now clean_raw_text (full_experience_text st)) data
                     in Inr data))))))"

section \<open>Notions used in the statements and proofs\<close>

text \<open>
  None of the definitions of this section is part of the program: they name what the
  statements about it speak of.
\<close>

text \<open>A pattern without capturing group leaves the capture of group 1 as it is.\<close>

fun no_group :: "regex \<Rightarrow> bool" where
  "no_group (Group a) = False"
| "no_group (Seq a b) = (no_group a \<and> no_group b)"
| "no_group (Alt a b) = (no_group a \<and> no_group b)"
| "no_group (Opt a) = no_group a"
| "no_group r = True"

text \<open>The seniority scale the specification orders the labels by.\<close>

definition seniority_scale :: "string list" where
  "seniority_scale =
     [''Entry-Level (Uncertain)'', ''Junior'', ''Junior-Mid'', ''Mid-Level'', ''Mid-Senior'', ''Senior'']"

fun position_in :: "string list \<Rightarrow> string \<Rightarrow> nat option" where
  "position_in [] l = None"
| "position_in (x # xs) l = (if x = l then Some 0 else map_option Suc (position_in xs l))"

definition seniority_le :: "string \<Rightarrow> string \<Rightarrow> bool" where
  "seniority_le a b =
     (case (position_in seniority_scale a, position_in seniority_scale b) of
        (Some i, Some j) \<Rightarrow> i \<le> j
      | _ \<Rightarrow> False)"

definition has_fresher_keyword :: "string \<Rightarrow> bool" where
  "has_fresher_keyword text_lower =
     list_ex (\<lambda>k. str_in k text_lower) [''fresher'', ''graduate'', ''entry level'']"

text \<open>The lines accumulated so far under a section tag.\<close>

definition content :: "seg_state \<Rightarrow> string \<Rightarrow> string list" where
  "content st tag = (case map_of (section_text st) tag of None \<Rightarrow> [] | Some ls \<Rightarrow> ls)"

definition result_keys :: "string list" where
  "result_keys = [''Full Name'', ''Email'', ''Phone'', ''Skills'', ''Education'', ''Experience'',
                  ''Achievements'', ''AI_Analysis'']"

text \<open>
  A result without the \<open>Personality\<close> entry of its \<open>AI_Analysis\<close>: every field
  other than the personality profile.
\<close>

definition drop_personality :: "string \<times> pyval \<Rightarrow> string \<times> pyval" where
  "drop_personality entry =
     (case entry of
        (k, Dict sub) \<Rightarrow> (k, Dict (filter (\<lambda>(k', v). k' \<noteq> ''Personality'') sub))
      | _ \<Rightarrow> entry)"

definition other_fields :: "py_error + (string \<times> pyval) list \<Rightarrow> py_error + (string \<times> pyval) list" where
  "other_fields res = map_sum id (map drop_personality) res"

text \<open>What \<open>parse\<close> returns for a non-empty text, once its four lookups have succeeded.\<close>

definition assemble :: "nlp \<Rightarrow> int \<Rightarrow> string \<Rightarrow> (string \<times> pyval) list" where
  "assemble nlp now raw_text =
     (let clean_raw_text = clean_text raw_text;
          ls = split_on nl clean_raw_text;
          st = segment ls
      in dict_set ''AI_Analysis'' (ai_analysis nlp now clean_raw_text (full_experience_text st))
        (dict_set ''Achievements'' (StrList (content st ''achievements''))
        (dict_set ''Experience'' (StrList (content st ''experience''))
        (dict_set ''Skills'' (StrList (content st ''skills''))
        (dict_set ''Education'' (StrList (content st ''education''))
           (contact_data clean_raw_text ls))))))"

definition section_tags :: "string list" where
  "section_tags = map fst sections_keywords"

text \<open>
  The invariant of the segmentation loop: the dict of the sections keeps the five tags of
  the table as its keys, and the current section, once there is one, is one of them.
\<close>

definition seg_inv :: "seg_state \<Rightarrow> bool" where
  "seg_inv st = (map fst (section_text st) = section_tags \<and>
     (case current_section st of None \<Rightarrow> True | Some cur \<Rightarrow> cur \<in> set section_tags))"

text \<open>
  A text with every run of consecutive newlines collapsed to one newline: a newline that
  another newline follows is dropped.
\<close>

fun squeeze_newlines :: "string \<Rightarrow> string" where
  "squeeze_newlines [] = []"
| "squeeze_newlines [c] = [c]"
| "squeeze_newlines (c # d # cs) =
     (if c = nl \<and> d = nl then squeeze_newlines (d # cs) else c # squeeze_newlines (d # cs))"

text \<open>The text of the scenario of the specification.\<close>

definition scenario_text :: string where
  "scenario_text =
     ''John Doe\<newline>john@x.com\<newline>555-123-4567\<newline>EXPERIENCE\<newline>Led team 2015\<newline>Managed project 2020''"

section \<open>Facts about the regular expressions\<close>

lemma rmatch_no_group:
  "no_group r \<Longrightarrow> (p', rest', g') \<in> set (rmatch r (p, rest, g)) \<Longrightarrow> g' = g"
proof (induction r arbitrary: p rest g p' rest' g')
  case (Seq a b)
  then show ?case by (auto, blast)
next
  case (Rep P lo hi)
  then show ?case by (auto simp: advance_def)
qed (auto split: list.splits if_splits)

lemma rmatch_lit:
  "(p', rest', g') \<in> set (rmatch (lit w) (p, rest, g)) \<Longrightarrow> rest = w @ rest'"
proof (induction w arbitrary: p rest g)
  case Nil
  then show ?case by simp
next
  case (Cons c w)
  then show ?case by (auto split: list.splits if_splits)
qed

lemma rmatch_Seq_iff:
  "x \<in> set (rmatch (Seq a b) st) \<longleftrightarrow> (\<exists>y \<in> set (rmatch a st). x \<in> set (rmatch b y))"
  by auto

lemma rmatch_WordB_same: "y \<in> set (rmatch WordB st) \<Longrightarrow> y = st"
  by (cases st) (auto split: if_splits)

lemma rmatch_Group_capture:
  "z \<in> set (rmatch (Group a) (p, rest, g)) \<Longrightarrow>
     \<exists>p' rest' g0. (p', rest', g0) \<in> set (rmatch a (p, rest, g)) \<and>
       z = (p', rest', Some (take (length rest - length rest') rest))"
  by auto

text \<open>
  Whatever the year pattern matches, its group has captured the century, ``19'' or ``20'':
  this is all \<open>re.findall\<close> returns of a match, and no such number is a year from 1980
  on, so \<open>calculate_experience_level\<close> detects no year in any text.
\<close>

lemma year_group:
  assumes "(p', rest', g') \<in> set (rmatch year_pattern (p, rest, g))"
  shows "g' = Some ''19'' \<or> g' = Some ''20''"
proof -
  from assms obtain s0 s1 s2 where
    s0: "s0 \<in> set (rmatch WordB (p, rest, g))"
    and s1: "s1 \<in> set (rmatch (Group (Alt (lit ''19'') (lit ''20''))) s0)"
    and s2: "s2 \<in> set (rmatch (Rep isdigit 2 (Some 2)) s1)"
    and s3: "(p', rest', g') \<in> set (rmatch WordB s2)"
    unfolding year_pattern_def rmatch_Seq_iff by blast
  from s0 have s0_eq: "s0 = (p, rest, g)" by (rule rmatch_WordB_same)
  from s3 have s2_eq: "s2 = (p', rest', g')" by (rule rmatch_WordB_same [symmetric])
  from s1 s0_eq obtain p1 r1 g0 where
    alt: "(p1, r1, g0) \<in> set (rmatch (Alt (lit ''19'') (lit ''20'')) (p, rest, g))"
    and s1_eq: "s1 = (p1, r1, Some (take (length rest - length r1) rest))"
    using rmatch_Group_capture by blast
  have "no_group (Rep isdigit 2 (Some 2))" by simp
  from rmatch_no_group [OF this] s2 s2_eq s1_eq
  have g': "g' = Some (take (length rest - length r1) rest)" by blast
  from alt have "(p1, r1, g0) \<in> set (rmatch (lit ''19'') (p, rest, g)) \<or>
                 (p1, r1, g0) \<in> set (rmatch (lit ''20'') (p, rest, g))"
    by (simp only: rmatch.simps set_append Un_iff)
  then have "rest = ''19'' @ r1 \<or> rest = ''20'' @ r1"
    using rmatch_lit by blast
  with g' show ?thesis by auto
qed

lemma match_here_year:
  assumes "match_here year_pattern p rest = Some m"
  shows "snd m = Some ''19'' \<or> snd m = Some ''20''"
proof -
  from assms obtain p' rest' g' ms where
    r: "rmatch year_pattern (p, rest, None) = (p', rest', g') # ms" and m: "snd m = g'"
    unfolding match_here_def by (auto split: list.splits)
  from r have "(p', rest', g') \<in> set (rmatch year_pattern (p, rest, None))" by simp
  from year_group [OF this] m show ?thesis by simp
qed

lemma match_here_year_end:
  "match_here year_pattern p [] = None"
  by (simp add: match_here_def year_pattern_def)

lemma findall_year:
  "y \<in> set (findall_from year_pattern p skip s) \<Longrightarrow> y = ''19'' \<or> y = ''20''"
proof (induction s arbitrary: p skip)
  case Nil
  then show ?case by (simp add: match_here_year_end split: if_splits)
next
  case (Cons c cs)
  show ?case
  proof (cases "0 < skip")
    case True
    with Cons show ?thesis by simp
  next
    case False
    show ?thesis
    proof (cases "match_here year_pattern p (c # cs)")
      case None
      with False Cons show ?thesis by simp
    next
      case (Some m)
      from match_here_year [OF Some] have "snd m = Some ''19'' \<or> snd m = Some ''20''" .
      with False Some Cons show ?thesis by auto
    qed
  qed
qed

lemma detected_years_empty: "detected_years now s = []"
proof -
  have "\<not> (1980 \<le> py_int y \<and> py_int y \<le> now)" if "y \<in> set (re_findall year_pattern s)" for y
  proof -
    from that have "y = ''19'' \<or> y = ''20''"
      unfolding re_findall_def by (rule findall_year)
    then have "py_int y = 19 \<or> py_int y = 20" by (auto simp: py_int_def)
    then show ?thesis by auto
  qed
  then have "filter (\<lambda>y. 1980 \<le> y \<and> y \<le> now) (map py_int (re_findall year_pattern s)) = []"
    by (auto simp: filter_empty_conv)
  then show ?thesis by (simp add: detected_years_def)
qed

section \<open>The personality scores and the experience levels\<close>

lemma count_from_nonneg: "0 \<le> count_from k skip s"
  by (induction k skip s rule: count_from.induct) auto

lemma fold_score_nonneg:
  "0 \<le> a \<Longrightarrow>
   0 \<le> fold (\<lambda>k score. score + int (count_list tokens k) + str_count t k) ks a"
proof (induction ks arbitrary: a)
  case Nil
  then show ?case by simp
next
  case (Cons k ks)
  have "0 \<le> a + int (count_list tokens k) + str_count t k"
    using Cons.prems count_from_nonneg [of k 0 t] by (simp add: str_count_def)
  from Cons.IH [OF this] show ?case by simp
qed

lemma trait_score_nonneg: "0 \<le> trait_score tokens text keywords"
  unfolding trait_score_def by (rule fold_score_nonneg) simp

text \<open>
  Claim C6. For every combined score \<open>score \<ge> 0\<close> the rating is ``Not Detected'' for
  \<open>score = 0\<close>, ``Low'' for \<open>0 < score < 4\<close>, ``Medium'' for \<open>4 \<le> score < 10\<close> and
  ``High'' for \<open>score \<ge> 10\<close>; at the boundaries, 3 gives ``Low'', 4 and 9 give ``Medium''
  and 10 gives ``High''. With a loaded model, \<open>analyze_personality\<close> returns the six
  traits in the order of the table, each with its combined score, which is not negative,
  and with this rating of that score.
\<close>

theorem rating_thresholds:
  "0 \<le> score \<Longrightarrow>
     rating_of score =
       (if score = 0 then ''Not Detected''
        else if 0 < score \<and> score < 4 then ''Low''
        else if 4 \<le> score \<and> score < 10 then ''Medium''
        else ''High'') \<and>
     rating_of 0 = ''Not Detected'' \<and> rating_of 3 = ''Low'' \<and> rating_of 4 = ''Medium'' \<and>
     rating_of 9 = ''Medium'' \<and> rating_of 10 = ''High'' \<and>
     map fst (analyze_personality (Some run) text) =
       [''Leadership'', ''Teamwork'', ''Communication'', ''Problem Solving'', ''Creativity'',
        ''Adaptability''] \<and>
     map (\<lambda>(trait, rating, s). s) (analyze_personality (Some run) text) =
       map (\<lambda>(trait, ks).
              trait_score (map tok_lemma (filter (\<lambda>t. \<not> is_stop t \<and> \<not> is_punct t)
                             (run (lower text)))) text ks)
           personality_keywords \<and>
     list_all (\<lambda>(trait, rating, s). 0 \<le> s \<and> rating = rating_of s)
       (analyze_personality (Some run) text)"
proof -
  assume "0 \<le> score"
  then have a: "rating_of score =
       (if score = 0 then ''Not Detected''
        else if 0 < score \<and> score < 4 then ''Low''
        else if 4 \<le> score \<and> score < 10 then ''Medium''
        else ''High'')"
    by (simp add: rating_of_def)
  have b: "rating_of 0 = ''Not Detected'' \<and> rating_of 3 = ''Low'' \<and> rating_of 4 = ''Medium'' \<and>
     rating_of 9 = ''Medium'' \<and> rating_of 10 = ''High''"
    by (simp add: rating_of_def)
  have c: "list_all (\<lambda>(trait, rating, s). 0 \<le> s \<and> rating = rating_of s)
       (analyze_personality (Some run) text)"
    by (simp add: analyze_personality_def list_all_iff trait_score_nonneg split_beta Let_def)
  have d: "map fst (analyze_personality (Some run) text) =
       [''Leadership'', ''Teamwork'', ''Communication'', ''Problem Solving'', ''Creativity'',
        ''Adaptability'']"
    by (simp add: analyze_personality_def Let_def personality_keywords_def)
  have e: "map (\<lambda>(trait, rating, s). s) (analyze_personality (Some run) text) =
       map (\<lambda>(trait, ks).
              trait_score (map tok_lemma (filter (\<lambda>t. \<not> is_stop t \<and> \<not> is_punct t)
                             (run (lower text)))) text ks)
           personality_keywords"
    by (simp add: analyze_personality_def Let_def split_beta)
  from a b c d e show ?thesis by blast
qed

theorem rating_thresholds_witness:
  "(0::int) \<le> 3 \<and> rating_of 3 = ''Low'' \<and>
   map fst (analyze_personality (Some (\<lambda>s. [])) ''led'') =
       [''Leadership'', ''Teamwork'', ''Communication'', ''Problem Solving'', ''Creativity'',
        ''Adaptability''] \<and>
   list_all (\<lambda>(trait, rating, s). 0 \<le> s \<and> rating = rating_of s)
     (analyze_personality (Some (\<lambda>s. [])) ''led'')"
  using rating_thresholds [of 3 "\<lambda>s. []" "''led''"] by simp

text \<open>
  Claim C5. With \<open>title_bump\<close> fixed and a text without fresher keyword, the labels that
  the decision cascade gives for 0, 2, 5 and 8 estimated years do not decrease on the scale
  Entry-Level (Uncertain), Junior, Junior-Mid, Mid-Level, Mid-Senior, Senior.
\<close>

theorem level_rules_monotone:
  "\<not> has_fresher_keyword text_lower \<Longrightarrow>
     seniority_le (fst (level_rules 0 title_bump text_lower years0))
                  (fst (level_rules 2 title_bump text_lower years2)) \<and>
     seniority_le (fst (level_rules 2 title_bump text_lower years2))
                  (fst (level_rules 5 title_bump text_lower years5)) \<and>
     seniority_le (fst (level_rules 5 title_bump text_lower years5))
                  (fst (level_rules 8 title_bump text_lower years8))"
  by (cases title_bump)
     (simp_all add: has_fresher_keyword_def level_rules_def seniority_le_def seniority_scale_def)

theorem level_rules_monotone_witness:
  "\<not> has_fresher_keyword ''senior developer'' \<and>
   seniority_le (fst (level_rules 0 True ''senior developer'' []))
                (fst (level_rules 2 True ''senior developer'' [])) \<and>
   seniority_le (fst (level_rules 2 True ''senior developer'' []))
                (fst (level_rules 5 True ''senior developer'' [])) \<and>
   seniority_le (fst (level_rules 5 True ''senior developer'' []))
                (fst (level_rules 8 True ''senior developer'' []))"
proof -
  have h: "\<not> has_fresher_keyword ''senior developer''"
    by (simp add: has_fresher_keyword_def)
  from level_rules_monotone [OF h, of True "[]" "[]" "[]" "[]"] h show ?thesis by blast
qed

lemma py_str_0: "py_str 0 = ''0''"
  by code_simp

text \<open>
  Claim C10. When the experience text yields no valid year and the lowercased full text
  contains a title-bump keyword and no fresher keyword, \<open>calculate_experience_level\<close>
  returns the label ``Junior'' and the detail ``0 Years detected (? - ?)''.
\<close>

theorem bump_without_years_is_junior:
  assumes "detected_years now experience_section_text = []"
    and "title_bump_of (lower text)"
    and "\<not> has_fresher_keyword (lower text)"
  shows "calculate_experience_level now text experience_section_text =
           (''Junior'', ''0 Years detected (? - ?)'')"
  using assms
  by (simp add: calculate_experience_level_def estimated_years_of_def level_rules_def
        has_fresher_keyword_def year_or_unknown_def py_str_0)

theorem bump_without_years_is_junior_witness:
  "detected_years 2026 ''Built the billing service '' = [] \<and>
   title_bump_of (lower ''Senior Engineer'') \<and>
   \<not> has_fresher_keyword (lower ''Senior Engineer'') \<and>
   calculate_experience_level 2026 ''Senior Engineer'' ''Built the billing service '' =
     (''Junior'', ''0 Years detected (? - ?)'')"
proof -
  have h1: "detected_years 2026 ''Built the billing service '' = []" by code_simp
  have h2: "title_bump_of (lower ''Senior Engineer'')" by code_simp
  have h3: "\<not> has_fresher_keyword (lower ''Senior Engineer'')" by code_simp
  from bump_without_years_is_junior [OF h1 h2 h3] h1 h2 h3 show ?thesis by blast
qed

text \<open>
  Claim C1, at the text of its example. The claim expects the years \<open>[2015, 2020]\<close> and
  5 estimated years; \<open>re.findall\<close> returns the captures of the group \<open>(19|20)\<close>, here
  ``20'' twice, the filter \<open>1980 \<le> y\<close> drops both, and so, whatever the current year, no
  year is detected and the estimate is 0.
\<close>

theorem years_of_scenario:
  "re_findall year_pattern ''Led team 2015 Managed project 2020 '' = [''20'', ''20''] \<and>
   detected_years now ''Led team 2015 Managed project 2020 '' = [] \<and>
   estimated_years_of (detected_years now ''Led team 2015 Managed project 2020 '') = 0"
proof -
  have "re_findall year_pattern ''Led team 2015 Managed project 2020 '' = [''20'', ''20'']"
    by code_simp
  then show ?thesis
    by (simp add: detected_years_empty estimated_years_of_def)
qed

section \<open>Facts about parse\<close>

text \<open>
  The segmentation keeps the keys of the dict of the sections, so the four lookups of
  \<open>parse\<close> succeed and \<open>parse\<close> returns for every non-empty text.
\<close>

lemma dict_set_keys: "k \<in> fst ` set d \<Longrightarrow> map fst (dict_set k v d) = map fst d"
  by (induction d) (auto simp: rev_image_eqI)

lemma dict_set_keys_eq:
  "map fst d = ks \<Longrightarrow> k \<in> set ks \<Longrightarrow> map fst (dict_set k v d) = ks"
  using dict_set_keys [of k d v] by (metis set_map)

lemma dict_set_other: "k' \<noteq> k \<Longrightarrow> map_of (dict_set k v d) k' = map_of d k'"
  by (induction d) auto

lemma dict_set_same: "map_of (dict_set k v d) k = Some v"
  by (induction d) auto

lemma seg_step_keys: "map fst (section_text (seg_step st line)) = map fst (section_text st)"
proof -
  have "map fst (dict_set cur v (section_text st)) = map fst (section_text st)"
    if "map_of (section_text st) cur = Some ls" for cur v ls
    using that by (intro dict_set_keys) (auto dest: map_of_SomeD intro: rev_image_eqI)
  then show ?thesis
    by (auto simp: seg_step_def Let_def split: option.splits)
qed

lemma foldl_seg_step_keys:
  "map fst (section_text (foldl seg_step st ls)) = map fst (section_text st)"
  by (induction ls arbitrary: st) (simp_all add: seg_step_keys)

lemma segment_keys:
  "map fst (section_text (segment ls)) =
     [''education'', ''skills'', ''experience'', ''achievements'', ''projects'']"
  by (simp add: segment_def foldl_seg_step_keys seg_init_def sections_keywords_def)

lemma segment_lookup:
  assumes "tag \<in> set [''education'', ''skills'', ''experience'', ''achievements'', ''projects'']"
  shows "map_of (section_text (segment ls)) tag = Some (content (segment ls) tag)"
proof -
  from assms have "tag \<in> fst ` set (section_text (segment ls))"
    using segment_keys [of ls] by (metis set_map)
  then obtain v where "map_of (section_text (segment ls)) tag = Some v"
    by (meson domD domI map_of_eq_None_iff not_None_eq)
  then show ?thesis by (simp add: content_def)
qed

lemma contact_data_keys: "map fst (contact_data t ls) = result_keys"
  by (simp add: contact_data_def initial_data_def result_keys_def Let_def split: option.splits)

lemma parse_returns:
  "raw_text \<noteq> [] \<Longrightarrow> parse nlp now (Some raw_text) = Inr (assemble nlp now raw_text)"
  by (simp add: parse_def assemble_def Let_def segment_lookup)

lemma assemble_keys: "map fst (assemble nlp now raw_text) = result_keys"
proof -
  have k: "''Education'' \<in> set result_keys" "''Skills'' \<in> set result_keys"
    "''Experience'' \<in> set result_keys" "''Achievements'' \<in> set result_keys"
    "''AI_Analysis'' \<in> set result_keys"
    by (simp_all add: result_keys_def)
  show ?thesis
    unfolding assemble_def Let_def
    by (intro dict_set_keys_eq k contact_data_keys)
qed

text \<open>
  Claim C7. When \<open>extract_text\<close> returned \<open>None\<close> or the empty string, \<open>parse\<close> returns
  exactly the dict with the one key \<open>Error\<close>; for every non-empty text it returns, without
  raising, a dict with the eight result keys, and \<open>Error\<close> is not one of them.
\<close>

theorem unreadable_document:
  "parse nlp now None = Inr [(''Error'', Str ''Could not extract text.'')] \<and>
   parse nlp now (Some []) = Inr [(''Error'', Str ''Could not extract text.'')] \<and>
   (raw_text \<noteq> [] \<longrightarrow>
      (\<exists>data. parse nlp now (Some raw_text) = Inr data \<and> map fst data = result_keys \<and>
              ''Error'' \<notin> set (map fst data)))"
proof -
  have "''Error'' \<notin> set result_keys" by (simp add: result_keys_def)
  then have "raw_text \<noteq> [] \<longrightarrow>
      (\<exists>data. parse nlp now (Some raw_text) = Inr data \<and> map fst data = result_keys \<and>
              ''Error'' \<notin> set (map fst data))"
    using assemble_keys [of nlp now raw_text] parse_returns [of raw_text nlp now] by metis
  moreover have "parse nlp now None = Inr [(''Error'', Str ''Could not extract text.'')]"
    "parse nlp now (Some []) = Inr [(''Error'', Str ''Could not extract text.'')]"
    by (simp_all add: parse_def error_result_def)
  ultimately show ?thesis by blast
qed

theorem unreadable_document_witness:
  "''Jane Roe'' \<noteq> [] \<and>
   parse None 2026 None = Inr [(''Error'', Str ''Could not extract text.'')] \<and>
   parse None 2026 (Some []) = Inr [(''Error'', Str ''Could not extract text.'')] \<and>
   (\<exists>data. parse None 2026 (Some ''Jane Roe'') = Inr data \<and> map fst data = result_keys \<and>
           ''Error'' \<notin> set (map fst data))"
  using unreadable_document [of None 2026 "''Jane Roe''"] by simp

lemma map_dict_set_cong:
  "f (k, v) = f (k, v') \<Longrightarrow> map f (dict_set k v d) = map f (dict_set k v' d)"
  by (induction d) auto

lemma drop_personality_ai:
  "drop_personality (k, ai_analysis nlp now t e) =
   (k, Dict [(''Experience_Level'', Str (fst (calculate_experience_level now t e))),
             (''Experience_Detail'', Str (snd (calculate_experience_level now t e)))])"
  by (simp add: drop_personality_def ai_analysis_def split: prod.splits)

lemma other_fields_nlp:
  "other_fields (parse nlp now extracted) = other_fields (parse nlp' now extracted)"
proof (cases extracted)
  case None
  then show ?thesis by (simp add: parse_def)
next
  case (Some raw_text)
  show ?thesis
  proof (cases "raw_text = []")
    case True
    with Some show ?thesis by (simp add: parse_def)
  next
    case False
    have "map drop_personality (assemble nlp now raw_text) =
          map drop_personality (assemble nlp' now raw_text)"
      unfolding assemble_def Let_def
      by (rule map_dict_set_cong) (simp only: drop_personality_ai)
    with False Some show ?thesis by (simp add: parse_returns other_fields_def)
  qed
qed

lemma assemble_sections:
  "map_of (assemble nlp now raw_text) ''Education'' =
     Some (StrList (content (segment (split_on nl (clean_text raw_text))) ''education''))"
  "map_of (assemble nlp now raw_text) ''Skills'' =
     Some (StrList (content (segment (split_on nl (clean_text raw_text))) ''skills''))"
  "map_of (assemble nlp now raw_text) ''Experience'' =
     Some (StrList (content (segment (split_on nl (clean_text raw_text))) ''experience''))"
  "map_of (assemble nlp now raw_text) ''Achievements'' =
     Some (StrList (content (segment (split_on nl (clean_text raw_text))) ''achievements''))"
  by (simp_all add: assemble_def Let_def dict_set_same dict_set_other)

lemma ai_analysis_degraded:
  "ai_analysis None now t e =
     Dict [(''Experience_Level'', Str (fst (calculate_experience_level now t e))),
           (''Experience_Detail'', Str (snd (calculate_experience_level now t e))),
           (''Personality'',
              Dict [(''Leadership'', Tuple ''N/A'' 0), (''Teamwork'', Tuple ''N/A'' 0),
                    (''Communication'', Tuple ''N/A'' 0), (''Problem Solving'', Tuple ''N/A'' 0),
                    (''Creativity'', Tuple ''N/A'' 0), (''Adaptability'', Tuple ''N/A'' 0)])]"
  by (simp add: ai_analysis_def analyze_personality_def personality_keywords_def split: prod.splits)

lemma assemble_ai:
  "map_of (assemble nlp now raw_text) ''AI_Analysis'' =
     Some (ai_analysis nlp now (clean_text raw_text)
             (full_experience_text (segment (split_on nl (clean_text raw_text)))))"
  by (simp add: assemble_def Let_def dict_set_same)

lemma assemble_contact:
  "map_of (assemble nlp now raw_text) ''Full Name'' =
     map_of (contact_data (clean_text raw_text) (split_on nl (clean_text raw_text))) ''Full Name''"
  "map_of (assemble nlp now raw_text) ''Email'' =
     map_of (contact_data (clean_text raw_text) (split_on nl (clean_text raw_text))) ''Email''"
  "map_of (assemble nlp now raw_text) ''Phone'' =
     map_of (contact_data (clean_text raw_text) (split_on nl (clean_text raw_text))) ''Phone''"
  by (simp_all add: assemble_def Let_def dict_set_other)

text \<open>
  Claim C8. Without the spaCy model, \<open>analyze_personality\<close> gives each of the six traits
  the rating ``N/A'' and the score 0. \<open>parse\<close> still returns the full record for every
  non-empty text: the name, the email and the phone found in the text, the four section
  lists of the segmentation, and under \<open>AI_Analysis\<close> the experience level and detail
  with this ``N/A'' profile. Apart from the \<open>Personality\<close> entry it is the record
  \<open>parse\<close> returns with any loaded model.
\<close>

theorem degraded_analysis:
  "analyze_personality None text =
     [(''Leadership'', ''N/A'', 0), (''Teamwork'', ''N/A'', 0), (''Communication'', ''N/A'', 0),
      (''Problem Solving'', ''N/A'', 0), (''Creativity'', ''N/A'', 0), (''Adaptability'', ''N/A'', 0)] \<and>
   other_fields (parse None now extracted) = other_fields (parse nlp now extracted) \<and>
   (raw_text \<noteq> [] \<longrightarrow>
      (\<exists>data. parse None now (Some raw_text) = Inr data \<and> map fst data = result_keys \<and>
         map_of data ''Full Name'' =
           map_of (contact_data (clean_text raw_text) (split_on nl (clean_text raw_text))) ''Full Name'' \<and>
         map_of data ''Email'' =
           map_of (contact_data (clean_text raw_text) (split_on nl (clean_text raw_text))) ''Email'' \<and>
         map_of data ''Phone'' =
           map_of (contact_data (clean_text raw_text) (split_on nl (clean_text raw_text))) ''Phone'' \<and>
         map_of data ''Education'' =
           Some (StrList (content (segment (split_on nl (clean_text raw_text))) ''education'')) \<and>
         map_of data ''Skills'' =
           Some (StrList (content (segment (split_on nl (clean_text raw_text))) ''skills'')) \<and>
         map_of data ''Experience'' =
           Some (StrList (content (segment (split_on nl (clean_text raw_text))) ''experience'')) \<and>
         map_of data ''Achievements'' =
           Some (StrList (content (segment (split_on nl (clean_text raw_text))) ''achievements'')) \<and>
         map_of data ''AI_Analysis'' =
           Some (Dict
             [(''Experience_Level'',
                 Str (fst (calculate_experience_level now (clean_text raw_text)
                        (full_experience_text (segment (split_on nl (clean_text raw_text))))))),
              (''Experience_Detail'',
                 Str (snd (calculate_experience_level now (clean_text raw_text)
                        (full_experience_text (segment (split_on nl (clean_text raw_text))))))),
              (''Personality'',
                 Dict [(''Leadership'', Tuple ''N/A'' 0), (''Teamwork'', Tuple ''N/A'' 0),
                       (''Communication'', Tuple ''N/A'' 0), (''Problem Solving'', Tuple ''N/A'' 0),
                       (''Creativity'', Tuple ''N/A'' 0), (''Adaptability'', Tuple ''N/A'' 0)])])))"
proof -
  have a: "analyze_personality None text =
     [(''Leadership'', ''N/A'', 0), (''Teamwork'', ''N/A'', 0), (''Communication'', ''N/A'', 0),
      (''Problem Solving'', ''N/A'', 0), (''Creativity'', ''N/A'', 0), (''Adaptability'', ''N/A'', 0)]"
    by (simp add: analyze_personality_def personality_keywords_def)
  have b: "other_fields (parse None now extracted) = other_fields (parse nlp now extracted)"
    by (rule other_fields_nlp)
  have c: ?thesis if ne: "raw_text \<noteq> []"
    using a b parse_returns [OF ne, of None now] assemble_keys [of None now raw_text]
      assemble_sections [of None now raw_text] assemble_contact [of None now raw_text]
      assemble_ai [of None now raw_text]
    by (simp only: ai_analysis_degraded) simp
  show ?thesis
  proof (cases "raw_text = []")
    case True
    with a b show ?thesis by simp
  next
    case False
    then show ?thesis by (rule c)
  qed
qed

theorem degraded_analysis_witness:
  "''Jane Roe'' \<noteq> [] \<and>
   analyze_personality None ''Jane Roe'' =
     [(''Leadership'', ''N/A'', 0), (''Teamwork'', ''N/A'', 0), (''Communication'', ''N/A'', 0),
      (''Problem Solving'', ''N/A'', 0), (''Creativity'', ''N/A'', 0), (''Adaptability'', ''N/A'', 0)] \<and>
   other_fields (parse None 2026 (Some ''Jane Roe'')) =
     other_fields (parse (Some (\<lambda>s. [])) 2026 (Some ''Jane Roe'')) \<and>
   (\<exists>data. parse None 2026 (Some ''Jane Roe'') = Inr data \<and> map fst data = result_keys \<and>
      map_of data ''Full Name'' = Some (Str ''Jane Roe'') \<and>
      map_of data ''AI_Analysis'' =
        Some (Dict
          [(''Experience_Level'', Str ''Entry-Level (Uncertain)''),
           (''Experience_Detail'', Str ''No dates found''),
           (''Personality'',
              Dict [(''Leadership'', Tuple ''N/A'' 0), (''Teamwork'', Tuple ''N/A'' 0),
                    (''Communication'', Tuple ''N/A'' 0), (''Problem Solving'', Tuple ''N/A'' 0),
                    (''Creativity'', Tuple ''N/A'' 0), (''Adaptability'', Tuple ''N/A'' 0)])]))"
proof -
  have h: "''Jane Roe'' \<noteq> []" by simp
  have c: "clean_text ''Jane Roe'' = ''Jane Roe''" by code_simp
  have l: "split_on nl ''Jane Roe'' = [''Jane Roe'']" by code_simp
  have n: "map_of (contact_data ''Jane Roe'' [''Jane Roe'']) ''Full Name'' = Some (Str ''Jane Roe'')"
    by code_simp
  have s: "full_experience_text (segment [''Jane Roe'']) = []" by code_simp
  have e: "calculate_experience_level 2026 ''Jane Roe'' [] =
             (''Entry-Level (Uncertain)'', ''No dates found'')" by code_simp
  from degraded_analysis [of "''Jane Roe''" 2026 "Some ''Jane Roe''" "Some (\<lambda>s. [])" "''Jane Roe''"]
    h show ?thesis
    unfolding c l n s e by auto
qed

section \<open>The scenario of the specification\<close>

lemma scenario_clean:
  "clean_text scenario_text =
     scenario_text"
  by code_simp

lemma scenario_lines:
  "split_on nl scenario_text =
     [''John Doe'', ''john@x.com'', ''555-123-4567'', ''EXPERIENCE'', ''Led team 2015'',
      ''Managed project 2020'']"
  by code_simp

lemma scenario_contact:
  "contact_data scenario_text
     [''John Doe'', ''john@x.com'', ''555-123-4567'', ''EXPERIENCE'', ''Led team 2015'',
      ''Managed project 2020''] =
   [(''Full Name'', Str ''John Doe''), (''Email'', Str ''john@x.com''),
    (''Phone'', Str ''555-123-4567''), (''Skills'', StrList []), (''Education'', StrList []),
    (''Experience'', StrList []), (''Achievements'', StrList []), (''AI_Analysis'', Dict [])]"
  by code_simp

lemma scenario_segment:
  "segment [''John Doe'', ''john@x.com'', ''555-123-4567'', ''EXPERIENCE'', ''Led team 2015'',
      ''Managed project 2020''] =
   \<lparr>current_section = Some ''experience'',
    section_text = [(''education'', []), (''skills'', []),
                    (''experience'', [''Led team 2015'', ''Managed project 2020'']),
                    (''achievements'', []), (''projects'', [])],
    full_experience_text = ''Led team 2015 Managed project 2020 ''\<rparr>"
  by code_simp

lemma scenario_level:
  "calculate_experience_level now
     scenario_text
     ''Led team 2015 Managed project 2020 '' = (''Entry-Level (Uncertain)'', ''No dates found'')"
proof -
  have "\<not> title_bump_of (lower scenario_text)"
    by code_simp
  moreover have "\<not> has_fresher_keyword (lower scenario_text)"
    by code_simp
  ultimately show ?thesis
    by (simp only: calculate_experience_level_def detected_years_empty estimated_years_of_def
          level_rules_def Let_def has_fresher_keyword_def) simp
qed

text \<open>
  Claim C2, at the scenario text, for any model and any current year. The name, the
  email, the phone and the experience section are the ones the claim gives; no year is
  detected, the estimate is 0 and, without title-bump or fresher keyword, the label is
  ``Entry-Level (Uncertain)'' with the detail ``No dates found'', where the claim expects
  the years \<open>[2015, 2020]\<close>, 5 estimated years and ``Mid-Level''.
\<close>

theorem parse_scenario:
  "parse nlp now (Some scenario_text) =
   Inr [(''Full Name'', Str ''John Doe''), (''Email'', Str ''john@x.com''),
        (''Phone'', Str ''555-123-4567''), (''Skills'', StrList []), (''Education'', StrList []),
        (''Experience'', StrList [''Led team 2015'', ''Managed project 2020'']),
        (''Achievements'', StrList []),
        (''AI_Analysis'',
           Dict [(''Experience_Level'', Str ''Entry-Level (Uncertain)''),
                 (''Experience_Detail'', Str ''No dates found''),
                 (''Personality'',
                    Dict (map (\<lambda>(trait, rating, score). (trait, Tuple rating score))
                      (analyze_personality nlp scenario_text)))])] \<and>
   detected_years now ''Led team 2015 Managed project 2020 '' = [] \<and>
   estimated_years_of (detected_years now ''Led team 2015 Managed project 2020 '') = 0"
proof -
  let ?S = "scenario_text"
  have ne: "?S \<noteq> []" by (simp add: scenario_text_def)
  have c: "content \<lparr>current_section = Some ''experience'',
      section_text = [(''education'', []), (''skills'', []),
                      (''experience'', [''Led team 2015'', ''Managed project 2020'']),
                      (''achievements'', []), (''projects'', [])],
      full_experience_text = ''Led team 2015 Managed project 2020 ''\<rparr> tag =
     (if tag = ''experience'' then [''Led team 2015'', ''Managed project 2020''] else [])" for tag
    by (simp add: content_def)
  have ai: "ai_analysis nlp now ?S ''Led team 2015 Managed project 2020 '' =
     Dict [(''Experience_Level'', Str ''Entry-Level (Uncertain)''),
           (''Experience_Detail'', Str ''No dates found''),
           (''Personality'',
              Dict (map (\<lambda>(trait, rating, score). (trait, Tuple rating score))
                (analyze_personality nlp ?S)))]"
    by (simp only: ai_analysis_def scenario_level prod.case Let_def)
  have "assemble nlp now ?S =
     [(''Full Name'', Str ''John Doe''), (''Email'', Str ''john@x.com''),
        (''Phone'', Str ''555-123-4567''), (''Skills'', StrList []), (''Education'', StrList []),
        (''Experience'', StrList [''Led team 2015'', ''Managed project 2020'']),
        (''Achievements'', StrList []),
        (''AI_Analysis'', ai_analysis nlp now ?S ''Led team 2015 Managed project 2020 '')]"
    unfolding assemble_def Let_def scenario_clean scenario_lines scenario_segment scenario_contact c
    by simp
  with ai parse_returns [OF ne, of nlp now]
  have "parse nlp now (Some ?S) = Inr
     [(''Full Name'', Str ''John Doe''), (''Email'', Str ''john@x.com''),
        (''Phone'', Str ''555-123-4567''), (''Skills'', StrList []), (''Education'', StrList []),
        (''Experience'', StrList [''Led team 2015'', ''Managed project 2020'']),
        (''Achievements'', StrList []),
        (''AI_Analysis'',
           Dict [(''Experience_Level'', Str ''Entry-Level (Uncertain)''),
                 (''Experience_Detail'', Str ''No dates found''),
                 (''Personality'',
                    Dict (map (\<lambda>(trait, rating, score). (trait, Tuple rating score))
                      (analyze_personality nlp ?S)))])]"
    by (simp only:)
  then show ?thesis
    by (simp only: detected_years_empty estimated_years_of_def) simp
qed

section \<open>Facts about the section segmentation\<close>

lemma section_tags_eq:
  "section_tags = [''education'', ''skills'', ''experience'', ''achievements'', ''projects'']"
  by (simp add: section_tags_def sections_keywords_def)

lemma header_section_tag: "header_section cl = Some s \<Longrightarrow> s \<in> set section_tags"
  unfolding header_section_def section_tags_def
  by (auto simp: find_Some_iff) (metis fst_conv image_eqI nth_mem)

lemma seg_inv_init: "seg_inv seg_init"
  by (simp add: seg_inv_def seg_init_def section_tags_def split_beta)

lemma seg_inv_step: "seg_inv st \<Longrightarrow> seg_inv (seg_step st line)"
  unfolding seg_inv_def
  by (auto simp: seg_step_keys dest: header_section_tag)
     (auto simp: seg_step_def Let_def dest: header_section_tag split: option.splits)

lemma seg_inv_foldl: "seg_inv st \<Longrightarrow> seg_inv (foldl seg_step st ls)"
  by (induction ls arbitrary: st) (simp_all add: seg_inv_step)

lemma seg_inv_lookup:
  "seg_inv st \<Longrightarrow> current_section st = Some cur \<Longrightarrow>
     map_of (section_text st) cur = Some (content st cur)"
proof -
  assume r: "seg_inv st" and c: "current_section st = Some cur"
  then have "cur \<in> fst ` set (section_text st)"
    unfolding seg_inv_def by (metis option.simps(5) set_map)
  then obtain v where "map_of (section_text st) cur = Some v"
    by (meson domD domI map_of_eq_None_iff not_None_eq)
  then show ?thesis by (simp add: content_def)
qed

lemma content_dict_set:
  "content (st\<lparr>section_text := dict_set cur v (section_text st), full_experience_text := e\<rparr>) tag =
     (if tag = cur then v else content st tag)"
  by (simp add: content_def dict_set_same dict_set_other)

lemma seg_step_header:
  "header_section (lower (strip line)) = Some s \<Longrightarrow>
     seg_step st line = st\<lparr>current_section := Some s\<rparr>"
  by (simp add: seg_step_def)

lemma seg_step_dropped:
  "header_section (lower (strip line)) = None \<Longrightarrow> current_section st = None \<Longrightarrow>
     seg_step st line = st"
  by (simp add: seg_step_def)

lemma seg_step_blank:
  "header_section (lower (strip line)) = None \<Longrightarrow> strip line = [] \<Longrightarrow> seg_step st line = st"
  by (simp add: seg_step_def split: option.splits)

lemma seg_step_append:
  assumes "seg_inv st" and "header_section (lower (strip line)) = None"
    and "current_section st = Some cur" and "strip line \<noteq> []"
  shows "content (seg_step st line) tag =
           (if tag = cur then content st cur @ [strip line] else content st tag)"
    and "current_section (seg_step st line) = Some cur"
  using assms seg_inv_lookup [OF assms(1) assms(3)]
  by (simp_all add: seg_step_def content_dict_set)

lemma no_header_prefix:
  "\<forall>l \<in> set pre. header_section (lower (strip l)) = None \<Longrightarrow>
     foldl seg_step seg_init pre = seg_init"
proof (induction pre rule: rev_induct)
  case Nil
  then show ?case by simp
next
  case (snoc l pre)
  then have "foldl seg_step seg_init pre = seg_init" by simp
  moreover have "seg_step seg_init l = seg_init"
    using snoc.prems by (intro seg_step_dropped) (simp_all add: seg_init_def)
  ultimately show ?case by simp
qed

lemma header_section_first:
  "header_section cl = Some s \<Longrightarrow>
     \<exists>i < length sections_keywords. fst (sections_keywords ! i) = s \<and>
        is_header_for cl (snd (sections_keywords ! i)) \<and>
        (\<forall>j < i. \<not> is_header_for cl (snd (sections_keywords ! j)))"
  unfolding header_section_def
  by (auto simp: find_Some_iff split_beta) (metis fst_conv)

lemma changed_sections:
  assumes "seg_inv st"
  shows "length (filter (\<lambda>tag. content (seg_step st line) tag \<noteq> content st tag) section_tags) \<le> 1"
proof (cases "header_section (lower (strip line))")
  case (Some s)
  then show ?thesis by (simp add: seg_step_header content_def)
next
  case None
  show ?thesis
  proof (cases "current_section st")
    case n: None
    with None show ?thesis by (simp add: seg_step_dropped)
  next
    case (Some cur)
    show ?thesis
    proof (cases "strip line = []")
      case True
      with None show ?thesis by (simp add: seg_step_blank)
    next
      case False
      have "filter (\<lambda>tag. content (seg_step st line) tag \<noteq> content st tag) section_tags =
            filter (\<lambda>tag. tag = cur) section_tags"
        by (rule filter_cong) (auto simp: seg_step_append(1) [OF assms None Some False])
      moreover have "length (filter (\<lambda>tag. tag = cur) section_tags) \<le> 1"
        by (auto simp: section_tags_eq)
      ultimately show ?thesis by (simp only:)
    qed
  qed
qed

lemma header_section_none:
  "header_section cl = None \<longleftrightarrow>
     (\<forall>i < length sections_keywords. \<not> is_header_for cl (snd (sections_keywords ! i)))"
proof -
  have "header_section cl = None \<longleftrightarrow>
          (\<forall>x \<in> set sections_keywords. \<not> is_header_for cl (snd x))"
    unfolding header_section_def by (auto simp: find_None_iff split_beta)
  then show ?thesis by (simp only: all_set_conv_all_nth)
qed

text \<open>
  Claim C4. In every state \<open>st\<close> that the segmentation loop reaches, a line is placed in
  at most one section: a header line (its stripped, lowercased form contains a keyword of
  a section and has fewer than 5 tokens; the first such section of the table wins) only
  switches the current section; a line met before any header, and a blank line, change
  nothing; any other line is appended, stripped, to the current section alone.
\<close>

theorem segmentation_one_section:
  assumes "st = foldl seg_step seg_init pre"
  shows
   "(header_section (lower (strip line)) = Some section \<longrightarrow>
        seg_step st line = st\<lparr>current_section := Some section\<rparr> \<and>
        (\<exists>i < length sections_keywords. fst (sections_keywords ! i) = section \<and>
           is_header_for (lower (strip line)) (snd (sections_keywords ! i)) \<and>
           (\<forall>j < i. \<not> is_header_for (lower (strip line)) (snd (sections_keywords ! j))))) \<and>
    (header_section (lower (strip line)) = None \<longleftrightarrow>
        (\<forall>i < length sections_keywords.
            \<not> is_header_for (lower (strip line)) (snd (sections_keywords ! i)))) \<and>
    (header_section (lower (strip line)) = None \<and> current_section st = None \<longrightarrow>
        seg_step st line = st) \<and>
    (header_section (lower (strip line)) = None \<and> strip line = [] \<longrightarrow>
        seg_step st line = st) \<and>
    (header_section (lower (strip line)) = None \<and> current_section st = Some cur \<and>
     strip line \<noteq> [] \<longrightarrow>
        current_section (seg_step st line) = Some cur \<and>
        content (seg_step st line) cur = content st cur @ [strip line] \<and>
        (\<forall>tag. tag \<noteq> cur \<longrightarrow> content (seg_step st line) tag = content st tag)) \<and>
    length (filter (\<lambda>tag. content (seg_step st line) tag \<noteq> content st tag) section_tags) \<le> 1 \<and>
    ((\<forall>l \<in> set pre. header_section (lower (strip l)) = None) \<longrightarrow> st = seg_init)"
proof -
  have r: "seg_inv st"
    unfolding assms by (rule seg_inv_foldl [OF seg_inv_init])
  have a: "header_section (lower (strip line)) = Some section \<longrightarrow>
        seg_step st line = st\<lparr>current_section := Some section\<rparr> \<and>
        (\<exists>i < length sections_keywords. fst (sections_keywords ! i) = section \<and>
           is_header_for (lower (strip line)) (snd (sections_keywords ! i)) \<and>
           (\<forall>j < i. \<not> is_header_for (lower (strip line)) (snd (sections_keywords ! j))))"
    using seg_step_header header_section_first by blast
  have b: "header_section (lower (strip line)) = None \<and> current_section st = None \<longrightarrow>
        seg_step st line = st"
    using seg_step_dropped by blast
  have c: "header_section (lower (strip line)) = None \<and> strip line = [] \<longrightarrow>
        seg_step st line = st"
    using seg_step_blank by blast
  have d: "header_section (lower (strip line)) = None \<and> current_section st = Some cur \<and>
     strip line \<noteq> [] \<longrightarrow>
        current_section (seg_step st line) = Some cur \<and>
        content (seg_step st line) cur = content st cur @ [strip line] \<and>
        (\<forall>tag. tag \<noteq> cur \<longrightarrow> content (seg_step st line) tag = content st tag)"
    using seg_step_append [OF r] by simp
  have e: "(\<forall>l \<in> set pre. header_section (lower (strip l)) = None) \<longrightarrow> st = seg_init"
    unfolding assms using no_header_prefix by blast
  from a b c d e header_section_none [of "lower (strip line)"] changed_sections [OF r, of line]
  show ?thesis by blast
qed

theorem segmentation_one_section_witness:
  "header_section (lower (strip ''EXPERIENCE'')) = Some ''experience'' \<and>
   seg_step (foldl seg_step seg_init [''John Doe'']) ''EXPERIENCE'' =
     (foldl seg_step seg_init [''John Doe''])\<lparr>current_section := Some ''experience''\<rparr> \<and>
   foldl seg_step seg_init [''John Doe''] = seg_init \<and>
   header_section (lower (strip ''Led team 2015'')) = None \<and>
   current_section (foldl seg_step seg_init [''John Doe'', ''EXPERIENCE'']) = Some ''experience'' \<and>
   strip ''Led team 2015'' \<noteq> [] \<and>
   content (seg_step (foldl seg_step seg_init [''John Doe'', ''EXPERIENCE'']) ''Led team 2015'')
     ''experience'' =
     content (foldl seg_step seg_init [''John Doe'', ''EXPERIENCE'']) ''experience'' @
       [strip ''Led team 2015''] \<and>
   header_section (lower (strip ''john@x.com'')) = None \<and>
   current_section (foldl seg_step seg_init [''John Doe'']) = None \<and>
   seg_step (foldl seg_step seg_init [''John Doe'']) ''john@x.com'' =
     foldl seg_step seg_init [''John Doe'']"
proof -
  have h1: "header_section (lower (strip ''EXPERIENCE'')) = Some ''experience''" by code_simp
  have h2: "\<forall>l \<in> set [''John Doe'']. header_section (lower (strip l)) = None" by code_simp
  have h3: "header_section (lower (strip ''Led team 2015'')) = None" by code_simp
  have h4: "current_section (foldl seg_step seg_init [''John Doe'', ''EXPERIENCE'']) =
              Some ''experience''" by code_simp
  have h5: "strip ''Led team 2015'' \<noteq> []" by code_simp
  have h6: "header_section (lower (strip ''john@x.com'')) = None" by code_simp
  have h7: "current_section (foldl seg_step seg_init [''John Doe'']) = None" by code_simp
  note A = segmentation_one_section [OF refl, of "''EXPERIENCE''" "''experience''" "[''John Doe'']"]
  note B = segmentation_one_section [OF refl, of "''Led team 2015''" _ "[''John Doe'', ''EXPERIENCE'']"
             "''experience''"]
  note C = segmentation_one_section [OF refl, of "''john@x.com''" _ "[''John Doe'']"]
  from A h1 h2 have a: "seg_step (foldl seg_step seg_init [''John Doe'']) ''EXPERIENCE'' =
     (foldl seg_step seg_init [''John Doe''])\<lparr>current_section := Some ''experience''\<rparr>"
    "foldl seg_step seg_init [''John Doe''] = seg_init" by blast+
  from B h3 h4 h5 have b: "content (seg_step (foldl seg_step seg_init [''John Doe'', ''EXPERIENCE''])
       ''Led team 2015'') ''experience'' =
     content (foldl seg_step seg_init [''John Doe'', ''EXPERIENCE'']) ''experience'' @
       [strip ''Led team 2015'']" by blast
  from C h6 h7 have c: "seg_step (foldl seg_step seg_init [''John Doe'']) ''john@x.com'' =
     foldl seg_step seg_init [''John Doe'']" by blast
  from h1 h3 h4 h5 h6 h7 a b c show ?thesis by blast
qed

lemma seg_step_full_experience:
  "current_section st = Some cur \<Longrightarrow> cur \<noteq> ''experience'' \<Longrightarrow>
   header_section (lower (strip line)) = None \<Longrightarrow>
     full_experience_text (seg_step st line) = full_experience_text st"
  by (simp add: seg_step_def split: option.splits)

text \<open>
  Claim C9 as stated fails: the name is taken from the first five lines whatever their
  section, so in the text below the line segmented under \<open>projects\<close> is the \<open>Full Name\<close>
  of the result.
\<close>

theorem projects_counterexample:
  "content (segment (split_on nl (clean_text ''Resume Projects\<newline>Inventory Tracker''))) ''projects'' =
     [''Inventory Tracker''] \<and>
   parse None 2026 (Some ''Resume Projects\<newline>Inventory Tracker'') =
     Inr [(''Full Name'', Str ''Inventory Tracker''), (''Email'', Str ''Not Found''),
          (''Phone'', Str ''Not Found''), (''Skills'', StrList []), (''Education'', StrList []),
          (''Experience'', StrList []), (''Achievements'', StrList []),
          (''AI_Analysis'',
             Dict [(''Experience_Level'', Str ''Entry-Level (Uncertain)''),
                   (''Experience_Detail'', Str ''No dates found''),
                   (''Personality'',
                      Dict [(''Leadership'', Tuple ''N/A'' 0), (''Teamwork'', Tuple ''N/A'' 0),
                            (''Communication'', Tuple ''N/A'' 0),
                            (''Problem Solving'', Tuple ''N/A'' 0),
                            (''Creativity'', Tuple ''N/A'' 0),
                            (''Adaptability'', Tuple ''N/A'' 0)])])]"
  by code_simp

text \<open>
  Claim C9, amended. While the current section is \<open>projects\<close>, a line that is no header
  goes to the projects list only: no other section's content changes, nor does the
  experience text. The result of \<open>parse\<close> has exactly the eight result keys, none for the
  projects, and its four lists are the education, skills, experience and achievements
  contents of the segmentation.
\<close>

theorem projects_not_copied:
  assumes "st = foldl seg_step seg_init pre"
  shows
   "(current_section st = Some ''projects'' \<and> header_section (lower (strip line)) = None \<longrightarrow>
       content (seg_step st line) ''projects'' =
         (if strip line = [] then content st ''projects'' else content st ''projects'' @ [strip line]) \<and>
       (\<forall>tag. tag \<noteq> ''projects'' \<longrightarrow> content (seg_step st line) tag = content st tag) \<and>
       full_experience_text (seg_step st line) = full_experience_text st) \<and>
    (raw_text \<noteq> [] \<longrightarrow>
       (\<exists>data. parse nlp now (Some raw_text) = Inr data \<and>
          map fst data = [''Full Name'', ''Email'', ''Phone'', ''Skills'', ''Education'',
                          ''Experience'', ''Achievements'', ''AI_Analysis''] \<and>
          map_of data ''Education'' =
            Some (StrList (content (segment (split_on nl (clean_text raw_text))) ''education'')) \<and>
          map_of data ''Skills'' =
            Some (StrList (content (segment (split_on nl (clean_text raw_text))) ''skills'')) \<and>
          map_of data ''Experience'' =
            Some (StrList (content (segment (split_on nl (clean_text raw_text))) ''experience'')) \<and>
          map_of data ''Achievements'' =
            Some (StrList (content (segment (split_on nl (clean_text raw_text))) ''achievements''))))"
proof -
  have r: "seg_inv st"
    unfolding assms by (rule seg_inv_foldl [OF seg_inv_init])
  have a: "content (seg_step st line) ''projects'' =
         (if strip line = [] then content st ''projects'' else content st ''projects'' @ [strip line]) \<and>
       (\<forall>tag. tag \<noteq> ''projects'' \<longrightarrow> content (seg_step st line) tag = content st tag) \<and>
       full_experience_text (seg_step st line) = full_experience_text st"
    if c: "current_section st = Some ''projects''" and h: "header_section (lower (strip line)) = None"
  proof (cases "strip line = []")
    case True
    with h show ?thesis by (simp add: seg_step_blank)
  next
    case False
    from seg_step_append(1) [OF r h c False] seg_step_full_experience [OF c _ h] False
    show ?thesis by simp
  qed
  have b: "\<exists>data. parse nlp now (Some raw_text) = Inr data \<and>
          map fst data = [''Full Name'', ''Email'', ''Phone'', ''Skills'', ''Education'',
                          ''Experience'', ''Achievements'', ''AI_Analysis''] \<and>
          map_of data ''Education'' =
            Some (StrList (content (segment (split_on nl (clean_text raw_text))) ''education'')) \<and>
          map_of data ''Skills'' =
            Some (StrList (content (segment (split_on nl (clean_text raw_text))) ''skills'')) \<and>
          map_of data ''Experience'' =
            Some (StrList (content (segment (split_on nl (clean_text raw_text))) ''experience'')) \<and>
          map_of data ''Achievements'' =
            Some (StrList (content (segment (split_on nl (clean_text raw_text))) ''achievements''))"
    if ne: "raw_text \<noteq> []"
    using parse_returns [OF ne, of nlp now] assemble_keys [of nlp now raw_text]
      assemble_sections [of nlp now raw_text]
    by (simp add: result_keys_def)
  from a b show ?thesis by blast
qed

theorem projects_not_copied_witness:
  "current_section (foldl seg_step seg_init [''Resume Projects'']) = Some ''projects'' \<and>
   header_section (lower (strip ''Inventory Tracker'')) = None \<and>
   ''Resume Projects\<newline>Inventory Tracker'' \<noteq> [] \<and>
   content (seg_step (foldl seg_step seg_init [''Resume Projects'']) ''Inventory Tracker'') ''skills'' =
     content (foldl seg_step seg_init [''Resume Projects'']) ''skills'' \<and>
   content (seg_step (foldl seg_step seg_init [''Resume Projects'']) ''Inventory Tracker'') ''projects'' =
     content (foldl seg_step seg_init [''Resume Projects'']) ''projects'' @ [''Inventory Tracker''] \<and>
   (\<exists>data. parse None 2026 (Some ''Resume Projects\<newline>Inventory Tracker'') = Inr data \<and>
      map_of data ''Skills'' =
        Some (StrList (content (segment (split_on nl (clean_text ''Resume Projects\<newline>Inventory Tracker'')))
           ''skills'')))"
proof -
  have h1: "current_section (foldl seg_step seg_init [''Resume Projects'']) = Some ''projects''"
    by code_simp
  have h2: "header_section (lower (strip ''Inventory Tracker'')) = None" by code_simp
  have h3: "''Resume Projects\<newline>Inventory Tracker'' \<noteq> []" by simp
  have h4: "strip ''Inventory Tracker'' = ''Inventory Tracker''" by code_simp
  have h5: "''skills'' \<noteq> ''projects''" by simp
  from projects_not_copied [OF refl, of "[''Resume Projects'']" "''Inventory Tracker''"
         "''Resume Projects\<newline>Inventory Tracker''" None 2026] h1 h2 h3 h4 h5
  show ?thesis by auto
qed

section \<open>Facts about clean_text\<close>

text \<open>\<open>re.sub\<close> with the pattern of a run of newlines computes \<open>squeeze_newlines\<close>.\<close>

lemma squeeze_other: "c \<noteq> nl \<Longrightarrow> squeeze_newlines (c # cs) = c # squeeze_newlines cs"
  by (cases cs) simp_all

lemma squeeze_nl:
  "squeeze_newlines (nl # cs) = nl # squeeze_newlines (dropWhile (\<lambda>x. x = nl) cs)"
proof (induction cs)
  case Nil
  then show ?case by simp
next
  case (Cons d cs)
  then show ?case by (cases "d = nl") simp_all
qed

lemma rev_upt_Suc: "lo \<le> k \<Longrightarrow> rev [lo ..< Suc k] = k # rev [lo ..< k]"
  by simp

lemma match_here_newlines:
  "match_here newlines p rest =
     (if takeWhile (\<lambda>x. x = nl) rest = [] then None
      else Some (takeWhile (\<lambda>x. x = nl) rest, None))"
proof (cases "takeWhile (\<lambda>x. x = nl) rest = []")
  case True
  then show ?thesis
    by (simp add: match_here_def newlines_def run_length_def)
next
  case False
  then have k: "1 \<le> length (takeWhile (\<lambda>x. x = nl) rest)"
    by (simp add: Suc_leI)
  have "take (length (takeWhile (\<lambda>x. x = nl) rest)) rest = takeWhile (\<lambda>x. x = nl) rest"
    by (metis append_eq_conv_conj takeWhile_dropWhile_id)
  with False k show ?thesis
    by (simp add: match_here_def newlines_def run_length_def rev_upt_Suc advance_def
          length_takeWhile_le del: upt_Suc)
qed

lemma sub_from_newlines:
  "skip \<le> length s \<Longrightarrow> sub_from newlines [nl] p skip s = squeeze_newlines (drop skip s)"
proof (induction s arbitrary: p skip)
  case Nil
  then show ?case by (simp add: match_here_newlines)
next
  case (Cons c cs)
  show ?case
  proof (cases "0 < skip")
    case True
    then obtain k where k: "skip = Suc k" by (cases skip) auto
    with Cons.prems have "k \<le> length cs" by simp
    from Cons.IH [OF this] k show ?thesis by simp
  next
    case False
    then have s0: "skip = 0" by simp
    show ?thesis
    proof (cases "c = nl")
      case True
      have le: "length (takeWhile (\<lambda>x. x = nl) cs) \<le> length cs"
        by (rule length_takeWhile_le)
      have "sub_from newlines [nl] p 0 (c # cs) =
              nl # sub_from newlines [nl] (Some c) (length (takeWhile (\<lambda>x. x = nl) cs)) cs"
        using True by (simp add: match_here_newlines)
      also have "\<dots> = nl # squeeze_newlines (dropWhile (\<lambda>x. x = nl) cs)"
        by (simp add: Cons.IH [OF le] dropWhile_eq_drop)
      finally show ?thesis using True s0 by (simp add: squeeze_nl)
    next
      case False
      have "sub_from newlines [nl] p 0 (c # cs) = c # sub_from newlines [nl] (Some c) 0 cs"
        using False by (simp add: match_here_newlines)
      with False s0 Cons.IH [of 0] show ?thesis by (simp add: squeeze_other)
    qed
  qed
qed

lemma re_sub_newlines: "re_sub newlines [nl] s = squeeze_newlines s"
  by (simp add: re_sub_def sub_from_newlines)

lemma clean_text_squeeze: "clean_text text = strip (squeeze_newlines text)"
  by (simp add: clean_text_def re_sub_newlines strip_def)

lemma is_prefix_iff: "is_prefix k s \<longleftrightarrow> (\<exists>ss. s = k @ ss)"
  by (induction k s rule: is_prefix.induct) auto

lemma str_in_iff: "str_in k s \<longleftrightarrow> (\<exists>ps ss. s = ps @ k @ ss)"
proof (induction s)
  case Nil
  then show ?case by auto
next
  case (Cons c cs)
  show ?case
  proof
    assume "str_in k (c # cs)"
    then consider "is_prefix k (c # cs)" | "str_in k cs" by auto
    then show "\<exists>ps ss. c # cs = ps @ k @ ss"
    proof cases
      case 1
      then obtain ss where "c # cs = k @ ss" by (auto simp: is_prefix_iff)
      then have "c # cs = [] @ k @ ss" by simp
      then show ?thesis by blast
    next
      case 2
      with Cons obtain ps ss where "cs = ps @ k @ ss" by blast
      then have "c # cs = (c # ps) @ k @ ss" by simp
      then show ?thesis by blast
    qed
  next
    assume "\<exists>ps ss. c # cs = ps @ k @ ss"
    then obtain ps ss where e: "c # cs = ps @ k @ ss" by blast
    show "str_in k (c # cs)"
    proof (cases ps)
      case Nil
      with e have "is_prefix k (c # cs)" by (auto simp: is_prefix_iff)
      then show ?thesis by simp
    next
      case (Cons a ps')
      with e have "cs = ps' @ k @ ss" by simp
      with Cons.IH have "str_in k cs" by blast
      then show ?thesis by simp
    qed
  qed
qed

lemma str_in_strip: "str_in [nl, nl] (strip s) \<Longrightarrow> str_in [nl, nl] s"
proof -
  assume "str_in [nl, nl] (strip s)"
  then obtain ps ss where "rev (dropWhile isspace (rev (dropWhile isspace s))) = ps @ [nl, nl] @ ss"
    by (auto simp: str_in_iff strip_def)
  then have "dropWhile isspace (rev (dropWhile isspace s)) = rev ss @ [nl, nl] @ rev ps"
    by (metis append_assoc rev.simps(1) rev.simps(2) rev_append rev_rev_ident append_Cons append_Nil)
  then have "rev (dropWhile isspace s) =
      (takeWhile isspace (rev (dropWhile isspace s)) @ rev ss) @ [nl, nl] @ rev ps"
    by (metis append_assoc takeWhile_dropWhile_id)
  then have "dropWhile isspace s = ps @ [nl, nl] @ (ss @ rev (takeWhile isspace (rev (dropWhile isspace s))))"
    by (metis append_assoc rev.simps(1) rev.simps(2) rev_append rev_rev_ident append_Cons append_Nil)
  then have "s = (takeWhile isspace s @ ps) @ [nl, nl] @
                 (ss @ rev (takeWhile isspace (rev (dropWhile isspace s))))"
    by (metis append_assoc takeWhile_dropWhile_id)
  then show ?thesis unfolding str_in_iff by blast
qed

lemma squeeze_hd: "squeeze_newlines (c # cs) \<noteq> [] \<and> hd (squeeze_newlines (c # cs)) = c"
  by (induction cs arbitrary: c) auto

lemma squeeze_no_double: "\<not> str_in [nl, nl] (squeeze_newlines s)"
proof (induction s rule: squeeze_newlines.induct)
  case 1
  then show ?case by simp
next
  case (2 c)
  then show ?case by simp
next
  case (3 c d cs)
  obtain t where t: "squeeze_newlines (d # cs) = d # t"
    using squeeze_hd [of d cs] by (cases "squeeze_newlines (d # cs)") auto
  with 3 show ?case by (auto split: if_splits)
qed

lemma strip_ends:
  assumes "strip s \<noteq> []"
  shows "\<not> isspace (hd (strip s))" and "\<not> isspace (last (strip s))"
proof -
  let ?t = "dropWhile isspace s"
  let ?u = "dropWhile isspace (rev ?t)"
  from assms have u: "?u \<noteq> []" unfolding strip_def by (simp only: rev_is_Nil_conv not_False_eq_True)
  then have t: "?t \<noteq> []" by (metis dropWhile.simps(1) rev.simps(1))
  have "last (strip s) = hd ?u" using u by (simp add: strip_def last_rev)
  moreover have "\<not> isspace (hd ?u)" using u by (rule hd_dropWhile)
  ultimately show "\<not> isspace (last (strip s))" by simp
  have "hd (strip s) = last ?u" using u by (simp add: strip_def hd_rev)
  also have "\<dots> = last (rev ?t)"
    using u by (metis last_appendR takeWhile_dropWhile_id)
  also have "\<dots> = hd ?t" using t by (simp add: last_rev)
  finally have "hd (strip s) = hd ?t" .
  moreover have "\<not> isspace (hd ?t)" using t by (rule hd_dropWhile)
  ultimately show "\<not> isspace (hd (strip s))" by simp
qed

lemma isspace_nl: "isspace nl"
  by (simp add: isspace_def nl_def)

lemma split_on_nonempty: "split_on sep s \<noteq> []"
  by (induction s) (auto split: list.splits)

lemma split_on_lines:
  "\<not> str_in [nl, nl] s \<Longrightarrow> s \<noteq> [] \<Longrightarrow> last s \<noteq> nl \<Longrightarrow>
     [] \<notin> set (tl (split_on nl s)) \<and> (hd (split_on nl s) = [] \<longleftrightarrow> hd s = nl)"
proof (induction s)
  case Nil
  then show ?case by simp
next
  case (Cons c cs)
  show ?case
  proof (cases cs)
    case Nil
    with Cons.prems show ?thesis by simp
  next
    case (Cons d ds)
    from Cons.prems(1) have nd: "\<not> str_in [nl, nl] cs" by simp
    from Cons.prems(3) Cons have l: "last cs \<noteq> nl" by simp
    from Cons have ne: "cs \<noteq> []" by simp
    note IH = Cons.IH [OF nd ne l]
    obtain l0 ls where sp: "split_on nl cs = l0 # ls"
      using split_on_nonempty [of nl cs] by (cases "split_on nl cs") auto
    show ?thesis
    proof (cases "c = nl")
      case True
      with Cons.prems(1) Cons have "d \<noteq> nl" by auto
      with IH Cons True sp show ?thesis by auto
    next
      case False
      with IH sp show ?thesis by auto
    qed
  qed
qed

lemma clean_lines_nonempty:
  assumes "\<not> str_in [nl, nl] s" and "s \<noteq> []" and "\<not> isspace (hd s)" and "\<not> isspace (last s)"
  shows "[] \<notin> set (split_on nl s)"
proof -
  from assms(3,4) isspace_nl have h: "hd s \<noteq> nl" and l: "last s \<noteq> nl" by auto
  from split_on_lines [OF assms(1,2) l] h
  have "[] \<notin> set (tl (split_on nl s))" and "hd (split_on nl s) \<noteq> []" by auto
  then show ?thesis
    using split_on_nonempty [of nl s] by (cases "split_on nl s") auto
qed

text \<open>
  Claim C3 as stated fails: \<open>re.sub\<close> replaces a run of newline characters by one newline,
  so the empty line between two paragraphs is removed, not kept.
\<close>

theorem blank_line_counterexample:
  "clean_text ''Summary\<newline>\<newline>Engineer'' = ''Summary\<newline>Engineer'' \<and>
   split_on nl (clean_text ''Summary\<newline>\<newline>Engineer'') = [''Summary'', ''Engineer'']"
  by code_simp

text \<open>
  Claim C3, amended. For every text, \<open>clean_text\<close> replaces every run of consecutive
  newline characters by a single newline and strips the whitespace at both ends of the
  document before it is split: the cleaned text has no two adjacent newlines and, unless
  it is empty, neither starts nor ends with whitespace, and no line of its line sequence
  is empty.
\<close>

theorem clean_text_collapses_newlines:
  "clean_text text = strip (squeeze_newlines text) \<and>
   \<not> str_in [nl, nl] (clean_text text) \<and>
   (clean_text text \<noteq> [] \<longrightarrow>
      \<not> isspace (hd (clean_text text)) \<and> \<not> isspace (last (clean_text text)) \<and>
      [] \<notin> set (split_on nl (clean_text text)))"
proof -
  have nd: "\<not> str_in [nl, nl] (clean_text text)"
    unfolding clean_text_squeeze using str_in_strip squeeze_no_double by blast
  have "\<not> isspace (hd (clean_text text)) \<and> \<not> isspace (last (clean_text text)) \<and>
      [] \<notin> set (split_on nl (clean_text text))" if ne: "clean_text text \<noteq> []"
  proof -
    from ne have e: "\<not> isspace (hd (clean_text text))" "\<not> isspace (last (clean_text text))"
      unfolding clean_text_squeeze by (rule strip_ends)+
    from clean_lines_nonempty [OF nd ne e] e show ?thesis by simp
  qed
  with nd clean_text_squeeze show ?thesis by blast
qed

theorem clean_text_collapses_newlines_witness:
  "clean_text ''Summary\<newline>\<newline>Engineer'' \<noteq> [] \<and>
   clean_text ''Summary\<newline>\<newline>Engineer'' = strip (squeeze_newlines ''Summary\<newline>\<newline>Engineer'') \<and>
   \<not> str_in [nl, nl] (clean_text ''Summary\<newline>\<newline>Engineer'') \<and>
   \<not> isspace (hd (clean_text ''Summary\<newline>\<newline>Engineer'')) \<and>
   \<not> isspace (last (clean_text ''Summary\<newline>\<newline>Engineer'')) \<and>
   [] \<notin> set (split_on nl (clean_text ''Summary\<newline>\<newline>Engineer''))"
proof -
  have h: "clean_text ''Summary\<newline>\<newline>Engineer'' \<noteq> []" by code_simp
  from clean_text_collapses_newlines [of "''Summary\<newline>\<newline>Engineer''"] h show ?thesis by blast
qed

end
